theory Spec2Isabelle
  imports Complex_Main
begin

section \<open>Numbers\<close>

text \<open>
  The code computes in \<^verbatim>\<open>float\<close> and \<^verbatim>\<open>double\<close>. The model computes
  with exact real numbers: rounding, overflow of a finite result and the sign of zero are
  not modelled, and the samples stored in an image and the exponent \<open>p\<close> are finite
  numbers. What the model does keep are the results that leave the reals: a division by
  zero and \<^verbatim>\<open>pow\<close> outside its real domain give the IEEE 754 special values,
  and these propagate through the later operations as IEEE 754 and C99 Annex F say.

  Image dimensions are natural numbers. The \<^verbatim>\<open>size_t\<close> arithmetic of the code
  does not wrap on them: the border is 0 or 8, a border of 8 is only kept when both
  dimensions exceed 16, and an image of \<open>xsize * ysize\<close> samples of four bytes each
  lies in the address space that \<^verbatim>\<open>size_t\<close> spans.
\<close>

datatype dbl = Fin real | PInf | NInf | NaN

definition signed_inf :: "bool \<Rightarrow> dbl" where
  "signed_inf pos = (if pos then PInf else NInf)"

fun fp_add :: "dbl \<Rightarrow> dbl \<Rightarrow> dbl" where
  "fp_add (Fin a) (Fin b) = Fin (a + b)"
| "fp_add NaN _ = NaN"
| "fp_add _ NaN = NaN"
| "fp_add PInf NInf = NaN"
| "fp_add NInf PInf = NaN"
| "fp_add PInf _ = PInf"
| "fp_add _ PInf = PInf"
| "fp_add NInf _ = NInf"
| "fp_add _ NInf = NInf"

fun fp_neg :: "dbl \<Rightarrow> dbl" where
  "fp_neg (Fin a) = Fin (- a)"
| "fp_neg PInf = NInf"
| "fp_neg NInf = PInf"
| "fp_neg NaN = NaN"

definition fp_sub :: "dbl \<Rightarrow> dbl \<Rightarrow> dbl" where
  "fp_sub a b = fp_add a (fp_neg b)"

fun fp_mul :: "dbl \<Rightarrow> dbl \<Rightarrow> dbl" where
  "fp_mul (Fin a) (Fin b) = Fin (a * b)"
| "fp_mul NaN _ = NaN"
| "fp_mul _ NaN = NaN"
| "fp_mul PInf (Fin b) = (if b = 0 then NaN else signed_inf (0 < b))"
| "fp_mul NInf (Fin b) = (if b = 0 then NaN else signed_inf (b < 0))"
| "fp_mul (Fin a) PInf = (if a = 0 then NaN else signed_inf (0 < a))"
| "fp_mul (Fin a) NInf = (if a = 0 then NaN else signed_inf (a < 0))"
| "fp_mul PInf PInf = PInf"
| "fp_mul PInf NInf = NInf"
| "fp_mul NInf PInf = NInf"
| "fp_mul NInf NInf = PInf"

text \<open>Division; a zero divisor is \<open>+0\<close>, so \<open>x / 0\<close> has the sign of \<open>x\<close>.\<close>

fun fp_div :: "dbl \<Rightarrow> dbl \<Rightarrow> dbl" where
  "fp_div (Fin a) (Fin b) =
     (if b \<noteq> 0 then Fin (a / b) else if a = 0 then NaN else signed_inf (0 < a))"
| "fp_div NaN _ = NaN"
| "fp_div _ NaN = NaN"
| "fp_div (Fin a) PInf = Fin 0"
| "fp_div (Fin a) NInf = Fin 0"
| "fp_div PInf (Fin b) = signed_inf (0 \<le> b)"
| "fp_div NInf (Fin b) = signed_inf (b < 0)"
| "fp_div PInf PInf = NaN"
| "fp_div PInf NInf = NaN"
| "fp_div NInf PInf = NaN"
| "fp_div NInf NInf = NaN"

definition is_int :: "real \<Rightarrow> bool" where
  "is_int y = (y = of_int \<lfloor>y\<rfloor>)"

definition is_odd_int :: "real \<Rightarrow> bool" where
  "is_odd_int y = (is_int y \<and> odd \<lfloor>y\<rfloor>)"

text \<open>
  \<^verbatim>\<open>pow(x, y)\<close> of the C library (C99 F.9.4.4): \<open>pow(x, 0) = 1\<close> and
  \<open>pow(1, y) = 1\<close> for every argument, also NaN; a negative base with a non-integer
  exponent is a domain error (NaN); a zero base with a negative exponent is a pole
  (\<open>+\<infinity>\<close>).
\<close>

fun fp_pow :: "dbl \<Rightarrow> dbl \<Rightarrow> dbl" where
  "fp_pow x (Fin y) =
     (if y = 0 then Fin 1
      else case x of
        NaN \<Rightarrow> NaN
      | Fin a \<Rightarrow>
          (if 0 < a then Fin (a powr y)
           else if a = 0 then (if 0 < y then Fin 0 else PInf)
           else if is_int y then Fin (a powi \<lfloor>y\<rfloor>)
           else NaN)
      | PInf \<Rightarrow> (if 0 < y then PInf else Fin 0)
      | NInf \<Rightarrow> (if 0 < y then (if is_odd_int y then NInf else PInf) else Fin 0))"
| "fp_pow x PInf =
     (case x of
        NaN \<Rightarrow> NaN
      | Fin a \<Rightarrow> (if \<bar>a\<bar> < 1 then Fin 0 else if \<bar>a\<bar> = 1 then Fin 1 else PInf)
      | PInf \<Rightarrow> PInf
      | NInf \<Rightarrow> PInf)"
| "fp_pow x NInf =
     (case x of
        NaN \<Rightarrow> NaN
      | Fin a \<Rightarrow> (if \<bar>a\<bar> < 1 then PInf else if \<bar>a\<bar> = 1 then Fin 1 else Fin 0)
      | PInf \<Rightarrow> Fin 0
      | NInf \<Rightarrow> Fin 0)"
| "fp_pow x NaN = (if x = Fin 1 then Fin 1 else NaN)"

section \<open>Images and vectors\<close>

text \<open>
  \<^verbatim>\<open>ImageF\<close>: \<open>ConstRow img y\<close> is the row pointer and \<open>ConstRow img y x\<close>
  the sample \<^verbatim>\<open>row[x]\<close>. The code reads no sample outside
  \<open>x < xsize\<close>, \<open>y < ysize\<close>.
\<close>

record ImageF =
  xsize :: nat
  ysize :: nat
  ConstRow :: "nat \<Rightarrow> nat \<Rightarrow> real"

text \<open>\<^verbatim>\<open>ButteraugliParams\<close>; the code reads this field only.\<close>

record ButteraugliParams =
  approximate_border :: bool

text \<open>
  A vector of the SIMD library is the list of its lanes. The number of lanes \<open>N\<close>
  (\<^verbatim>\<open>Lanes(d)\<close>) depends on the target the dispatcher selects and is a parameter
  of the model; every target has at least one lane. With \<^verbatim>\<open>HWY_CAP_DOUBLE\<close>
  the lanes are loaded as \<^verbatim>\<open>float\<close> and promoted to \<^verbatim>\<open>double\<close>,
  without it they stay \<^verbatim>\<open>float\<close>: in exact arithmetic both are the same.
\<close>

type_synonym vec = "dbl list"

definition Zero :: "nat \<Rightarrow> vec" where
  "Zero N = replicate N (Fin 0)"

definition Set :: "nat \<Rightarrow> real \<Rightarrow> vec" where
  "Set N w = replicate N (Fin w)"

definition Load :: "nat \<Rightarrow> (nat \<Rightarrow> real) \<Rightarrow> nat \<Rightarrow> vec" where
  "Load N row x = map (\<lambda>i. Fin (row (x + i))) [0..<N]"

definition vadd :: "vec \<Rightarrow> vec \<Rightarrow> vec" where
  "vadd a b = map2 fp_add a b"

definition vsub :: "vec \<Rightarrow> vec \<Rightarrow> vec" where
  "vsub a b = map2 fp_sub a b"

definition vmul :: "vec \<Rightarrow> vec \<Rightarrow> vec" where
  "vmul a b = map2 fp_mul a b"

text \<open>
  \<^verbatim>\<open>GetLane(SumOfLanes(v))\<close>: \<^verbatim>\<open>SumOfLanes\<close> puts the sum of the lanes
  in every lane and \<^verbatim>\<open>GetLane\<close> reads the first.
\<close>

definition SumOfLanes :: "vec \<Rightarrow> dbl" where
  "SumOfLanes v = foldr fp_add v (Fin 0)"

section \<open>ComputeDistanceP\<close>

subsection \<open>The fast path\<close>

text \<open>
  The vector loop of one row (lines 73 to 86): from \<open>x\<close> in steps of \<open>N\<close> while a
  full vector fits before \<open>xend = xsize - border\<close>. It returns the \<open>x\<close> it stopped at,
  where the scalar loop goes on. The test \<open>0 < N\<close> holds on every target.
\<close>

function fast_row_vec ::
  "nat \<Rightarrow> (nat \<Rightarrow> real) \<Rightarrow> nat \<Rightarrow> nat \<Rightarrow> vec \<times> vec \<times> vec \<Rightarrow> nat \<times> vec \<times> vec \<times> vec" where
  "fast_row_vec N row xend x (sums0, sums1, sums2) =
     (if 0 < N \<and> x + N \<le> xend then
        (let d1 = Load N row x;
             d2 = vmul (vmul d1 d1) d1;
             sums0' = vadd sums0 d2;
             d3 = vmul d2 d2;
             sums1' = vadd sums1 d3;
             d4 = vmul d3 d3;
             sums2' = vadd sums2 d4
         in fast_row_vec N row xend (x + N) (sums0', sums1', sums2'))
      else (x, sums0, sums1, sums2))"
  by pat_completeness auto
termination
  by (relation "measure (\<lambda>(N, row, xend, x, s). xend - x)") auto

declare fast_row_vec.simps [simp del]

text \<open>The scalar loop of one row (lines 92 to 100); \<open>sum1\<close> is the array of three.\<close>

fun fast_scalar_step :: "(nat \<Rightarrow> real) \<Rightarrow> nat \<Rightarrow> dbl \<times> dbl \<times> dbl \<Rightarrow> dbl \<times> dbl \<times> dbl" where
  "fast_scalar_step row x (s0, s1, s2) =
     (let d1 = Fin (row x);
          d2 = fp_mul (fp_mul d1 d1) d1;
          s0' = fp_add s0 d2;
          d2' = fp_mul d2 d2;
          s1' = fp_add s1 d2';
          d2'' = fp_mul d2' d2';
          s2' = fp_add s2 d2''
      in (s0', s1', s2'))"

text \<open>One row \<open>y\<close> (lines 66 to 101).\<close>

fun fast_row ::
  "nat \<Rightarrow> ImageF \<Rightarrow> nat \<Rightarrow> nat \<Rightarrow> (dbl \<times> dbl \<times> dbl) \<times> vec \<times> vec \<times> vec
     \<Rightarrow> (dbl \<times> dbl \<times> dbl) \<times> vec \<times> vec \<times> vec" where
  "fast_row N distmap border y (sum1, sum_totals0, sum_totals1, sum_totals2) =
     (let row = ConstRow distmap y;
          xend = xsize distmap - border;
          (x, sums0, sums1, sums2) = fast_row_vec N row xend border (Zero N, Zero N, Zero N);
          sum_totals0' = vadd sums0 sum_totals0;
          sum_totals1' = vadd sums1 sum_totals1;
          sum_totals2' = vadd sums2 sum_totals2;
          sum1' = fold (fast_scalar_step row) [x..<xend] sum1
      in (sum1', sum_totals0', sum_totals1', sum_totals2'))"

definition fast_path :: "nat \<Rightarrow> ImageF \<Rightarrow> nat \<Rightarrow> dbl \<Rightarrow> real \<Rightarrow> dbl" where
  "fast_path N distmap border onePerPixels p =
     (let ((s0, s1, s2), sum_totals0, sum_totals1, sum_totals2) =
            fold (fast_row N distmap border) [border..<ysize distmap - border]
              ((Fin 0, Fin 0, Fin 0), Zero N, Zero N, Zero N);
          v = Fin 0;
          v = fp_add v (fp_pow (fp_mul onePerPixels (fp_add s0 (SumOfLanes sum_totals0)))
                          (fp_div (Fin 1) (fp_mul (Fin p) (Fin 1))));
          v = fp_add v (fp_pow (fp_mul onePerPixels (fp_add s1 (SumOfLanes sum_totals1)))
                          (fp_div (Fin 1) (fp_mul (Fin p) (Fin 2))));
          v = fp_add v (fp_pow (fp_mul onePerPixels (fp_add s2 (SumOfLanes sum_totals2)))
                          (fp_div (Fin 1) (fp_mul (Fin p) (Fin 4))));
          v = fp_div v (Fin 3)
      in v)"

subsection \<open>The slow path\<close>

text \<open>
  Lines 119 to 136. The warning printed once on \<^verbatim>\<open>stderr\<close> does not change the
  value returned and is left out.
\<close>

fun slow_step :: "real \<Rightarrow> (nat \<Rightarrow> real) \<Rightarrow> nat \<Rightarrow> dbl \<times> dbl \<times> dbl \<Rightarrow> dbl \<times> dbl \<times> dbl" where
  "slow_step p row x (s0, s1, s2) =
     (let d2 = fp_pow (Fin (row x)) (Fin p);
          s0' = fp_add s0 d2;
          d2' = fp_mul d2 d2;
          s1' = fp_add s1 d2';
          d2'' = fp_mul d2' d2';
          s2' = fp_add s2 d2''
      in (s0', s1', s2'))"

definition slow_row :: "real \<Rightarrow> ImageF \<Rightarrow> nat \<Rightarrow> nat \<Rightarrow> dbl \<times> dbl \<times> dbl \<Rightarrow> dbl \<times> dbl \<times> dbl" where
  "slow_row p distmap border y sum1 =
     fold (slow_step p (ConstRow distmap y)) [border..<xsize distmap - border] sum1"

definition slow_path :: "ImageF \<Rightarrow> nat \<Rightarrow> dbl \<Rightarrow> real \<Rightarrow> dbl" where
  "slow_path distmap border onePerPixels p =
     (let (s0, s1, s2) =
            fold (slow_row p distmap border) [border..<ysize distmap - border]
              (Fin 0, Fin 0, Fin 0);
          v = fold (\<lambda>i v. fp_add v (fp_pow (fp_mul onePerPixels ([s0, s1, s2] ! i))
                                      (fp_div (Fin 1) (fp_mul (Fin p) (Fin (2 ^ i))))))
                [0..<3] (Fin 0);
          v = fp_div v (Fin 3)
      in v)"

subsection \<open>The function\<close>

text \<open>Lines 43 to 46: the border is 8 in approximate-border mode, and 0 on a tiny image.\<close>

definition border_of :: "ImageF \<Rightarrow> ButteraugliParams \<Rightarrow> nat" where
  "border_of distmap params =
     (let border = (if approximate_border params then 8 else 0)
      in if xsize distmap \<le> 2 * border \<or> ysize distmap \<le> 2 * border then 0 else border)"

definition ComputeDistanceP :: "nat \<Rightarrow> ImageF \<Rightarrow> ButteraugliParams \<Rightarrow> real \<Rightarrow> dbl" where
  "ComputeDistanceP N distmap params p =
     (let border = border_of distmap params;
          onePerPixels = fp_div (Fin 1) (Fin (real (ysize distmap * xsize distmap)))
      in if \<bar>p - 3\<bar> < 1 / 10 ^ 6 then fast_path N distmap border onePerPixels p
         else slow_path distmap border onePerPixels p)"

section \<open>ComputeDistance2\<close>

text \<open>
  \<^verbatim>\<open>Image3F\<close>: three planes of one size; \<open>ConstPlaneRow img c y x\<close> is the
  sample \<^verbatim>\<open>ConstPlaneRow(c, y)[x]\<close>.
\<close>

record Image3F =
  xsize3 :: nat
  ysize3 :: nat
  ConstPlaneRow :: "nat \<Rightarrow> nat \<Rightarrow> nat \<Rightarrow> real"

record ImageBundle =
  color :: Image3F
  IsSRGB :: bool
  IsGray :: bool

datatype ColorEncoding = SRGB bool

text \<open>
  Modelled from the spec: the macro \<^verbatim>\<open>JXL_CHECK\<close> is defined outside this file;
  the spec calls a failed check "a fatal contract violation (abort), not a recoverable
  error". A call that ends there returns \<open>Inl CheckFailed\<close> and no number.
\<close>

datatype error = CheckFailed

text \<open>
  Modelled from the spec: the helper \<^verbatim>\<open>SameSize\<close> is declared outside this
  file; the spec asks for "identical width and height".
\<close>

definition SameSize :: "Image3F \<Rightarrow> Image3F \<Rightarrow> bool" where
  "SameSize a b = (xsize3 a = xsize3 b \<and> ysize3 a = ysize3 b)"

text \<open>
  The colour conversion \<^verbatim>\<open>ib.CopyTo(Rect(ib), encoding, &copy)\<close> belongs to
  another part of the library and is a parameter of the model: \<open>None\<close> is the status
  \<^verbatim>\<open>false\<close>, \<open>Some copy\<close> a successful conversion into \<open>copy\<close>.
\<close>

type_synonym converter = "ImageBundle \<Rightarrow> ColorEncoding \<Rightarrow> Image3F option"

text \<open>Lines 144 to 149 (and 150 to 155): the image itself, or its sRGB copy.\<close>

definition srgb_of :: "converter \<Rightarrow> ImageBundle \<Rightarrow> error + Image3F" where
  "srgb_of CopyTo ib =
     (if \<not> IsSRGB ib then
        (case CopyTo ib (SRGB (IsGray ib)) of
           None \<Rightarrow> Inl CheckFailed
         | Some copy \<Rightarrow> Inr copy)
      else Inr (color ib))"

definition weights :: "real list" where
  "weights = [1 / 8, 6 / 8, 1 / 8]"

text \<open>The vector loop of one row (lines 175 to 179).\<close>

function dist_row_vec ::
  "nat \<Rightarrow> (nat \<Rightarrow> real) \<Rightarrow> (nat \<Rightarrow> real) \<Rightarrow> vec \<Rightarrow> nat \<Rightarrow> nat \<Rightarrow> vec \<Rightarrow> nat \<times> vec" where
  "dist_row_vec N row1 row2 weight xend x sums_v =
     (if 0 < N \<and> x + N \<le> xend then
        (let diff = vsub (Load N row1 x) (Load N row2 x);
             sums_v' = vadd sums_v (vmul (vmul diff diff) weight)
         in dist_row_vec N row1 row2 weight xend (x + N) sums_v')
      else (x, sums_v))"
  by pat_completeness auto
termination
  by (relation "measure (\<lambda>(N, row1, row2, weight, xend, x, s). xend - x)") auto

declare dist_row_vec.simps [simp del]

text \<open>The scalar loop of one row (lines 184 to 187).\<close>

definition dist_scalar_step :: "(nat \<Rightarrow> real) \<Rightarrow> (nat \<Rightarrow> real) \<Rightarrow> nat \<Rightarrow> nat \<Rightarrow> dbl \<Rightarrow> dbl" where
  "dist_scalar_step row1 row2 c x result =
     (let diff = fp_sub (Fin (row1 x)) (Fin (row2 x))
      in fp_add result (fp_mul (fp_mul diff diff) (Fin (weights ! c))))"

text \<open>One row \<open>y\<close> of plane \<open>c\<close> (lines 170 to 188).\<close>

fun dist_row :: "nat \<Rightarrow> Image3F \<Rightarrow> Image3F \<Rightarrow> nat \<Rightarrow> nat \<Rightarrow> vec \<times> dbl \<Rightarrow> vec \<times> dbl" where
  "dist_row N srgb1 srgb2 c y (sum_total, result) =
     (let weight = Set N (weights ! c);
          row1 = ConstPlaneRow srgb1 c y;
          row2 = ConstPlaneRow srgb2 c y;
          (x, sums_v) = dist_row_vec N row1 row2 weight (xsize3 srgb1) 0 (Zero N);
          sum_total' = vadd sums_v sum_total;
          result' = fold (dist_scalar_step row1 row2 c) [x..<xsize3 srgb1] result
      in (sum_total', result'))"

definition dist_plane :: "nat \<Rightarrow> Image3F \<Rightarrow> Image3F \<Rightarrow> nat \<Rightarrow> vec \<times> dbl \<Rightarrow> vec \<times> dbl" where
  "dist_plane N srgb1 srgb2 c acc = fold (dist_row N srgb1 srgb2 c) [0..<ysize3 srgb1] acc"

definition ComputeDistance2 :: "converter \<Rightarrow> nat \<Rightarrow> ImageBundle \<Rightarrow> ImageBundle \<Rightarrow> error + dbl" where
  "ComputeDistance2 CopyTo N ib1 ib2 =
     (case srgb_of CopyTo ib1 of
        Inl e \<Rightarrow> Inl e
      | Inr srgb1 \<Rightarrow>
          (case srgb_of CopyTo ib2 of
             Inl e \<Rightarrow> Inl e
           | Inr srgb2 \<Rightarrow>
               if \<not> SameSize srgb1 srgb2 then Inl CheckFailed
               else
                 (let (sum_total, result) =
                        fold (dist_plane N srgb1 srgb2) [0..<3] (Zero N, Fin 0);
                      sum = SumOfLanes sum_total
                  in Inr (fp_add sum result))))"

section \<open>ComputeDistanceP within the range of its number formats\<close>

text \<open>
  The functions above compute with exact numbers. The functions of this section repeat
  \<^verbatim>\<open>ComputeDistanceP\<close> with the range of the two number formats of the code: the
  result of every operation is stored in its format, where a magnitude above the largest
  finite value becomes an infinity and a magnitude below the smallest positive value
  becomes zero. Rounding inside the range, and with it the reduced precision of the
  subnormal numbers, is still not modelled: a value of these functions is the value of
  the code up to rounding error.

  The vector lanes have the type \<^verbatim>\<open>T\<close> of lines 54 to 59: \<^verbatim>\<open>double\<close>
  with \<^verbatim>\<open>HWY_CAP_DOUBLE\<close>, \<^verbatim>\<open>float\<close> without it. The format \<open>T\<close> is a
  parameter. Everything outside the vectors is \<^verbatim>\<open>double\<close>.
\<close>

record fmt =
  max_finite :: real
  min_pos :: real



fun in_fmt :: "fmt \<Rightarrow> dbl \<Rightarrow> dbl" where
  "in_fmt f (Fin r) =
     (if max_finite f < \<bar>r\<bar> then signed_inf (0 < r)
      else if \<bar>r\<bar> < min_pos f then Fin 0
      else Fin r)"
| "in_fmt f PInf = PInf"
| "in_fmt f NInf = NInf"
| "in_fmt f NaN = NaN"
















text \<open>
  \<open>fits f r\<close>: the number \<open>r\<close> is stored in the format \<open>f\<close> without overflow or
  underflow.
\<close>

definition fits :: "fmt \<Rightarrow> real \<Rightarrow> bool" where
  "fits f r = (\<bar>r\<bar> \<le> max_finite f \<and> (r = 0 \<or> min_pos f \<le> \<bar>r\<bar>))"

section \<open>The specification's reading of the reductions\<close>

text \<open>
  The definitions of this section follow the words of the specification and not the loops
  of the code: plain sums over the included region, the normalisation by the pixel count,
  the root and the average. The theorems below compare them with the functions above.
\<close>

definition fp_sum :: "dbl list \<Rightarrow> dbl" where
  "fp_sum ds = foldr fp_add ds (Fin 0)"

text \<open>The sum of \<open>t d\<close> over every sample \<open>d\<close> of the region inside the border.\<close>

definition region_sum :: "(real \<Rightarrow> dbl) \<Rightarrow> ImageF \<Rightarrow> nat \<Rightarrow> dbl" where
  "region_sum t distmap border =
     fp_sum (map (\<lambda>y. fp_sum (map (\<lambda>x. t (ConstRow distmap y x))
                                [border..<xsize distmap - border]))
               [border..<ysize distmap - border])"

text \<open>
  "Normalize each sum by the pixel count and take its root": the sum \<open>S\<close> divided by
  the number \<open>pixels\<close>, to the power \<open>1 / r\<close>.
\<close>

definition normalized_root :: "nat \<Rightarrow> dbl \<Rightarrow> real \<Rightarrow> dbl" where
  "normalized_root pixels S r = fp_pow (fp_div S (Fin (real pixels))) (fp_div (Fin 1) (Fin r))"

text \<open>"Average the three resulting values", with the roots \<open>1/p\<close>, \<open>1/(2p)\<close>, \<open>1/(4p)\<close>.\<close>

definition root_average :: "nat \<Rightarrow> real \<Rightarrow> dbl \<Rightarrow> dbl \<Rightarrow> dbl \<Rightarrow> dbl" where
  "root_average pixels p S0 S1 S2 =
     fp_div (fp_add (fp_add (normalized_root pixels S0 (p * 1))
                            (normalized_root pixels S1 (p * 2)))
                    (normalized_root pixels S2 (p * 4)))
            (Fin 3)"

definition sq :: "dbl \<Rightarrow> dbl" where
  "sq d = fp_mul d d"

text \<open>
  The power of one sample that the first sum collects: the cube on the fast path,
  \<^verbatim>\<open>pow(d, p)\<close> on the slow path. The second and third sums collect its square and
  its fourth power.
\<close>

definition pixel_power :: "real \<Rightarrow> real \<Rightarrow> dbl" where
  "pixel_power p d = (if \<bar>p - 3\<bar> < 1 / 10 ^ 6 then Fin (d ^ 3) else fp_pow (Fin d) (Fin p))"

text \<open>
  The fast path as the specification words it: the sums of \<open>d\<^sup>3\<close>, \<open>d\<^sup>6\<close> and
  \<open>d\<^sup>1\<^sup>2\<close>, normalised, to the powers \<open>1/(3\<cdot>1)\<close>, \<open>1/(3\<cdot>2)\<close> and \<open>1/(3\<cdot>4)\<close>,
  averaged.
\<close>

definition spec_fast_path :: "ImageF \<Rightarrow> nat \<Rightarrow> dbl" where
  "spec_fast_path distmap border =
     root_average (xsize distmap * ysize distmap) 3 (region_sum (\<lambda>d. Fin (d ^ 3)) distmap border)
       (region_sum (\<lambda>d. Fin (d ^ 6)) distmap border)
       (region_sum (\<lambda>d. Fin (d ^ 12)) distmap border)"

text \<open>
  The weighted sum of squared differences: the square of the difference of two samples times
  the weight of its plane, summed over all samples of all three planes, not divided by
  anything.
\<close>

definition sq_diff :: "Image3F \<Rightarrow> Image3F \<Rightarrow> nat \<Rightarrow> nat \<Rightarrow> nat \<Rightarrow> real" where
  "sq_diff a b c y x =
     (ConstPlaneRow a c y x - ConstPlaneRow b c y x)
       * (ConstPlaneRow a c y x - ConstPlaneRow b c y x) * weights ! c"

definition row_sse :: "Image3F \<Rightarrow> Image3F \<Rightarrow> nat \<Rightarrow> nat \<Rightarrow> real" where
  "row_sse a b c y = sum_list (map (sq_diff a b c y) [0..<xsize3 a])"

definition plane_sse :: "Image3F \<Rightarrow> Image3F \<Rightarrow> nat \<Rightarrow> real" where
  "plane_sse a b c = sum_list (map (row_sse a b c) [0..<ysize3 a])"

definition weighted_sse :: "Image3F \<Rightarrow> Image3F \<Rightarrow> real" where
  "weighted_sse a b = sum_list (map (plane_sse a b) [0..<3])"

section \<open>Auxiliary notions of the proofs\<close>

definition c3 :: "real \<Rightarrow> real" where
  "c3 d = d * d * d"

definition c6 :: "real \<Rightarrow> real" where
  "c6 d = c3 d * c3 d"

definition c12 :: "real \<Rightarrow> real" where
  "c12 d = c6 d * c6 d"

definition row_sum :: "(real \<Rightarrow> real) \<Rightarrow> ImageF \<Rightarrow> nat \<Rightarrow> nat \<Rightarrow> real" where
  "row_sum f distmap border y =
     sum_list (map (\<lambda>x. f (ConstRow distmap y x)) [border..<xsize distmap - border])"

text \<open>
  The invariant of the fast path's row loop: every accumulator is finite, every vector has
  \<open>N\<close> lanes, and the scalar sum plus all lanes of the matching vector is \<open>S0\<close>,
  \<open>S1\<close>, \<open>S2\<close>.
\<close>

definition fast_acc ::
  "nat \<Rightarrow> real \<Rightarrow> real \<Rightarrow> real \<Rightarrow> (dbl \<times> dbl \<times> dbl) \<times> vec \<times> vec \<times> vec \<Rightarrow> bool" where
  "fast_acc N S0 S1 S2 st =
     (\<exists>s0 s1 s2 t0 t1 t2.
        st = ((Fin s0, Fin s1, Fin s2), map Fin t0, map Fin t1, map Fin t2)
        \<and> length t0 = N \<and> length t1 = N \<and> length t2 = N
        \<and> s0 + sum_list t0 = S0 \<and> s1 + sum_list t1 = S1 \<and> s2 + sum_list t2 = S2)"

text \<open>The last lines of both paths, on the three totals.\<close>

definition roots :: "dbl \<Rightarrow> real \<Rightarrow> dbl \<Rightarrow> dbl \<Rightarrow> dbl \<Rightarrow> dbl" where
  "roots onePerPixels p S0 S1 S2 =
     fp_div (fp_add (fp_add (fp_pow (fp_mul onePerPixels S0) (fp_div (Fin 1) (Fin (p * 1))))
                            (fp_pow (fp_mul onePerPixels S1) (fp_div (Fin 1) (Fin (p * 2)))))
                    (fp_pow (fp_mul onePerPixels S2) (fp_div (Fin 1) (Fin (p * 4)))))
            (Fin 3)"

text \<open>
  The invariant of the loops of \<open>ComputeDistance2\<close>: the accumulators are finite and
  all lanes of \<open>sum_total\<close> plus \<open>result\<close> is \<open>S\<close>.
\<close>

definition dist_acc :: "nat \<Rightarrow> real \<Rightarrow> vec \<times> dbl \<Rightarrow> bool" where
  "dist_acc N S st =
     (\<exists>t r. st = (map Fin t, Fin r) \<and> length t = N \<and> sum_list t + r = S)"



text \<open>
  \<open>storable f r\<close>: the number \<open>r\<close> is not negative and does not underflow in the
  format \<open>f\<close>. \<open>sample_ok f d\<close>: the sample \<open>d\<close> is not negative and its powers
  \<open>d\<^sup>2\<close>, \<open>d\<^sup>3\<close>, \<open>d\<^sup>6\<close> and \<open>d\<^sup>1\<^sup>2\<close> are stored in \<open>f\<close> without overflow or
  underflow.
\<close>

definition storable :: "fmt \<Rightarrow> real \<Rightarrow> bool" where
  "storable f r = (0 \<le> r \<and> (r = 0 \<or> min_pos f \<le> r))"



section \<open>Lemmas about the numbers\<close>

lemma fp_add_commute: "fp_add a b = fp_add b a"
  by (cases a; cases b) simp_all

lemma fp_add_assoc: "fp_add (fp_add a b) c = fp_add a (fp_add b c)"
  by (cases a; cases b; cases c) simp_all

lemma fp_add_zero_left [simp]: "fp_add (Fin 0) a = a"
  by (cases a) simp_all

lemma fp_add_zero_right [simp]: "fp_add a (Fin 0) = a"
  by (cases a) simp_all

lemma fp_sum_Nil [simp]: "fp_sum [] = Fin 0"
  by (simp add: fp_sum_def)

lemma fp_sum_Cons [simp]: "fp_sum (d # ds) = fp_add d (fp_sum ds)"
  by (simp add: fp_sum_def)

lemma fp_sum_append: "fp_sum (xs @ ys) = fp_add (fp_sum xs) (fp_sum ys)"
  by (induction xs) (simp_all add: fp_add_assoc)

lemma fp_sum_Fin: "fp_sum (map (\<lambda>x. Fin (g x)) xs) = Fin (sum_list (map g xs))"
  by (induction xs) simp_all

lemma SumOfLanes_fp_sum: "SumOfLanes v = fp_sum v"
  by (simp add: SumOfLanes_def fp_sum_def)

lemma fold_fp_add: "fold (\<lambda>x s. fp_add s (g x)) xs s = fp_add s (fp_sum (map g xs))"
  by (induction xs arbitrary: s) (simp_all add: fp_add_assoc)

subsection \<open>Vectors of finite lanes\<close>

lemma sum_list_map2_add:
  "length a = length b \<Longrightarrow> sum_list (map2 (+) a b) = sum_list a + sum_list (b :: real list)"
  by (induction a b rule: list_induct2) simp_all

lemma upt_shift: "map (\<lambda>i. g (x + i)) [0..<N] = map g [x..<x + N]"
  by (induction N) simp_all

lemma vec_step_sums:
  fixes h :: "nat \<Rightarrow> real"
  assumes "length a = N"
  shows "sum_list (map2 (+) a (map (\<lambda>i. h (x + i)) [0..<N])) =
     sum_list a + sum_list (map h [x..<x + N])"
proof -
  have "length a = length (map (\<lambda>i. h (x + i)) [0..<N])"
    using assms by simp
  then have "sum_list (map2 (+) a (map (\<lambda>i. h (x + i)) [0..<N])) =
     sum_list a + sum_list (map (\<lambda>i. h (x + i)) [0..<N])"
    by (rule sum_list_map2_add)
  then show ?thesis
    by (simp only: upt_shift[of h])
qed

lemma vmul_pointwise:
  "vmul (map (\<lambda>i. Fin (g i)) xs) (map (\<lambda>i. Fin (h i)) xs) = map (\<lambda>i. Fin (g i * h i)) xs"
  by (induction xs) (simp_all add: vmul_def)

lemma vsub_pointwise:
  "vsub (map (\<lambda>i. Fin (g i)) xs) (map (\<lambda>i. Fin (h i)) xs) = map (\<lambda>i. Fin (g i - h i)) xs"
  by (induction xs) (simp_all add: vsub_def fp_sub_def)

lemma vadd_pointwise:
  "vadd (map Fin a) (map (\<lambda>i. Fin (g i)) xs) = map Fin (map2 (+) a (map g xs))"
proof (induction a arbitrary: xs)
  case Nil
  show ?case by (simp add: vadd_def)
next
  case (Cons r a)
  show ?case
  proof (cases xs)
    case Nil
    then show ?thesis by (simp add: vadd_def)
  next
    case (Cons i js)
    with Cons.IH[of js] show ?thesis by (simp add: vadd_def)
  qed
qed

lemma vadd_Fin: "vadd (map Fin a) (map Fin b) = map Fin (map2 (+) a b)"
  using vadd_pointwise[of a "\<lambda>i. i" b] by simp

lemma Zero_Fin: "Zero N = map Fin (replicate N 0)"
  by (simp add: Zero_def)

lemma SumOfLanes_Fin: "SumOfLanes (map Fin rs) = Fin (sum_list rs)"
  by (induction rs) (simp_all add: SumOfLanes_def)

subsection \<open>The fast path computes the three power sums\<close>

lemma c3_power: "c3 d = d ^ 3"
  by (simp add: c3_def power3_eq_cube)

lemma c6_power: "c6 d = d ^ 6"
  by (simp add: c6_def c3_def eval_nat_numeral)

lemma c12_power: "c12 d = d ^ 12"
  by (simp add: c12_def c6_def c3_def eval_nat_numeral)

lemma fast_row_vec_stop:
  "\<not> (0 < N \<and> x + N \<le> xend) \<Longrightarrow> fast_row_vec N row xend x (s0, s1, s2) = (x, s0, s1, s2)"
  by (subst fast_row_vec.simps) auto

lemma fast_row_vec_step:
  assumes "0 < N" "x + N \<le> xend"
  shows "fast_row_vec N row xend x (map Fin a0, map Fin a1, map Fin a2) =
     fast_row_vec N row xend (x + N)
       (map Fin (map2 (+) a0 (map (\<lambda>i. c3 (row (x + i))) [0..<N])),
        map Fin (map2 (+) a1 (map (\<lambda>i. c6 (row (x + i))) [0..<N])),
        map Fin (map2 (+) a2 (map (\<lambda>i. c12 (row (x + i))) [0..<N])))"
  using assms
  by (subst fast_row_vec.simps)
     (simp add: Let_def Load_def vmul_pointwise vadd_pointwise c3_def c6_def c12_def)

lemma fast_row_vec_sums:
  assumes "length a0 = N" "length a1 = N" "length a2 = N"
  shows "\<exists>x' b0 b1 b2.
      fast_row_vec N row xend x (map Fin a0, map Fin a1, map Fin a2)
        = (x', map Fin b0, map Fin b1, map Fin b2)
      \<and> length b0 = N \<and> length b1 = N \<and> length b2 = N \<and> x \<le> x' \<and> x' \<le> max x xend
      \<and> sum_list b0 = sum_list a0 + sum_list (map (\<lambda>i. c3 (row i)) [x..<x'])
      \<and> sum_list b1 = sum_list a1 + sum_list (map (\<lambda>i. c6 (row i)) [x..<x'])
      \<and> sum_list b2 = sum_list a2 + sum_list (map (\<lambda>i. c12 (row i)) [x..<x'])"
  using assms
proof (induction "xend - x" arbitrary: x a0 a1 a2 rule: less_induct)
  case less
  show ?case
  proof (cases "0 < N \<and> x + N \<le> xend")
    case False
    then have "fast_row_vec N row xend x (map Fin a0, map Fin a1, map Fin a2)
        = (x, map Fin a0, map Fin a1, map Fin a2)"
      by (rule fast_row_vec_stop)
    with less.prems show ?thesis by auto
  next
    case True
    define n0 where "n0 = map2 (+) a0 (map (\<lambda>i. c3 (row (x + i))) [0..<N])"
    define n1 where "n1 = map2 (+) a1 (map (\<lambda>i. c6 (row (x + i))) [0..<N])"
    define n2 where "n2 = map2 (+) a2 (map (\<lambda>i. c12 (row (x + i))) [0..<N])"
    have step: "fast_row_vec N row xend x (map Fin a0, map Fin a1, map Fin a2)
        = fast_row_vec N row xend (x + N) (map Fin n0, map Fin n1, map Fin n2)"
      unfolding n0_def n1_def n2_def using True by (simp add: fast_row_vec_step)
    have len: "length n0 = N" "length n1 = N" "length n2 = N"
      using less.prems by (simp_all add: n0_def n1_def n2_def)
    have s0: "sum_list n0 = sum_list a0 + sum_list (map (\<lambda>i. c3 (row i)) [x..<x + N])"
      unfolding n0_def using less.prems(1) by (rule vec_step_sums)
    have s1: "sum_list n1 = sum_list a1 + sum_list (map (\<lambda>i. c6 (row i)) [x..<x + N])"
      unfolding n1_def using less.prems(2) by (rule vec_step_sums)
    have s2: "sum_list n2 = sum_list a2 + sum_list (map (\<lambda>i. c12 (row i)) [x..<x + N])"
      unfolding n2_def using less.prems(3) by (rule vec_step_sums)
    have dec: "xend - (x + N) < xend - x" using True by auto
    from less.hyps[OF dec len]
    obtain x' b0 b1 b2 where r:
      "fast_row_vec N row xend (x + N) (map Fin n0, map Fin n1, map Fin n2)
        = (x', map Fin b0, map Fin b1, map Fin b2)"
      "length b0 = N" "length b1 = N" "length b2 = N" "x + N \<le> x'" "x' \<le> max (x + N) xend"
      "sum_list b0 = sum_list n0 + sum_list (map (\<lambda>i. c3 (row i)) [x + N..<x'])"
      "sum_list b1 = sum_list n1 + sum_list (map (\<lambda>i. c6 (row i)) [x + N..<x'])"
      "sum_list b2 = sum_list n2 + sum_list (map (\<lambda>i. c12 (row i)) [x + N..<x'])"
      by blast
    have split: "[x..<x'] = [x..<x + N] @ [x + N..<x']"
      using r(5) by (metis le_add1 upt_add_eq_append le_Suc_ex)
    have bound: "x \<le> x'" "x' \<le> max x xend" using r(5,6) True by auto
    show ?thesis
      apply (rule exI[of _ x'], rule exI[of _ b0], rule exI[of _ b1], rule exI[of _ b2])
      using r(1-4,7-9) bound step s0 s1 s2 by (simp add: split)
  qed
qed

lemma fast_row_vec_Zero:
  "\<exists>x' b0 b1 b2.
      fast_row_vec N row xend x (Zero N, Zero N, Zero N)
        = (x', map Fin b0, map Fin b1, map Fin b2)
      \<and> length b0 = N \<and> length b1 = N \<and> length b2 = N \<and> x \<le> x' \<and> x' \<le> max x xend
      \<and> sum_list b0 = sum_list (map (\<lambda>i. c3 (row i)) [x..<x'])
      \<and> sum_list b1 = sum_list (map (\<lambda>i. c6 (row i)) [x..<x'])
      \<and> sum_list b2 = sum_list (map (\<lambda>i. c12 (row i)) [x..<x'])"
proof -
  have z: "length (replicate N (0::real)) = N" by simp
  have s: "sum_list (replicate N (0::real)) = 0" by (induction N) simp_all
  from fast_row_vec_sums[OF z z z, of row xend x] show ?thesis
    unfolding Zero_Fin s by simp
qed

lemma fast_scalar_fold:
  "fold (fast_scalar_step row) xs (Fin s0, Fin s1, Fin s2) =
     (Fin (s0 + sum_list (map (\<lambda>i. c3 (row i)) xs)),
      Fin (s1 + sum_list (map (\<lambda>i. c6 (row i)) xs)),
      Fin (s2 + sum_list (map (\<lambda>i. c12 (row i)) xs)))"
  by (induction xs arbitrary: s0 s1 s2)
     (simp_all add: Let_def c3_def c6_def c12_def add.assoc)

lemma fast_row_acc:
  assumes "fast_acc N S0 S1 S2 st"
  shows "fast_acc N (S0 + row_sum c3 distmap border y) (S1 + row_sum c6 distmap border y)
           (S2 + row_sum c12 distmap border y) (fast_row N distmap border y st)"
proof -
  from assms obtain s0 s1 s2 t0 t1 t2 where st:
    "st = ((Fin s0, Fin s1, Fin s2), map Fin t0, map Fin t1, map Fin t2)"
    "length t0 = N" "length t1 = N" "length t2 = N"
    "s0 + sum_list t0 = S0" "s1 + sum_list t1 = S1" "s2 + sum_list t2 = S2"
    unfolding fast_acc_def by blast
  let ?row = "ConstRow distmap y"
  let ?xend = "xsize distmap - border"
  from fast_row_vec_Zero[of N ?row ?xend border]
  obtain x' b0 b1 b2 where r:
    "fast_row_vec N ?row ?xend border (Zero N, Zero N, Zero N)
        = (x', map Fin b0, map Fin b1, map Fin b2)"
    "length b0 = N" "length b1 = N" "length b2 = N" "border \<le> x'" "x' \<le> max border ?xend"
    "sum_list b0 = sum_list (map (\<lambda>i. c3 (?row i)) [border..<x'])"
    "sum_list b1 = sum_list (map (\<lambda>i. c6 (?row i)) [border..<x'])"
    "sum_list b2 = sum_list (map (\<lambda>i. c12 (?row i)) [border..<x'])"
    by blast
  have split: "[border..<?xend] = [border..<x'] @ [x'..<?xend]"
  proof (cases "border \<le> ?xend")
    case True
    with r(5,6) show ?thesis by (metis max_absorb2 upt_add_eq_append le_Suc_ex)
  next
    case False
    with r(5,6) show ?thesis by simp
  qed
  have res: "fast_row N distmap border y st =
      (fold (fast_scalar_step ?row) [x'..<?xend] (Fin s0, Fin s1, Fin s2),
       map Fin (map2 (+) b0 t0), map Fin (map2 (+) b1 t1), map Fin (map2 (+) b2 t2))"
    by (simp add: st(1) r(1) vadd_Fin)
  show ?thesis
    unfolding fast_acc_def res fast_scalar_fold row_sum_def
    apply (rule exI[of _ "s0 + sum_list (map (\<lambda>i. c3 (?row i)) [x'..<?xend])"])
    apply (rule exI[of _ "s1 + sum_list (map (\<lambda>i. c6 (?row i)) [x'..<?xend])"])
    apply (rule exI[of _ "s2 + sum_list (map (\<lambda>i. c12 (?row i)) [x'..<?xend])"])
    apply (rule exI[of _ "map2 (+) b0 t0"])
    apply (rule exI[of _ "map2 (+) b1 t1"])
    apply (rule exI[of _ "map2 (+) b2 t2"])
    using st(2-) r(2-4,7-9) by (simp add: sum_list_map2_add split)
qed

lemma fast_acc_init: "fast_acc N 0 0 0 ((Fin 0, Fin 0, Fin 0), Zero N, Zero N, Zero N)"
proof -
  have s: "sum_list (replicate N (0::real)) = 0" by (induction N) simp_all
  show ?thesis
    unfolding fast_acc_def Zero_Fin
    apply (rule exI[of _ 0], rule exI[of _ 0], rule exI[of _ 0])
    apply (rule exI[of _ "replicate N 0"], rule exI[of _ "replicate N 0"])
    apply (rule exI[of _ "replicate N 0"])
    by (simp add: s)
qed

lemma fast_rows_acc:
  "fast_acc N S0 S1 S2 st \<Longrightarrow>
   fast_acc N (S0 + sum_list (map (row_sum c3 distmap border) ys))
              (S1 + sum_list (map (row_sum c6 distmap border) ys))
              (S2 + sum_list (map (row_sum c12 distmap border) ys))
              (fold (fast_row N distmap border) ys st)"
proof (induction ys arbitrary: S0 S1 S2 st)
  case Nil
  then show ?case by simp
next
  case (Cons y ys)
  from Cons.IH[OF fast_row_acc[OF Cons.prems, of distmap border y]]
  show ?case by (simp add: add.assoc)
qed

lemma region_sum_Fin:
  "region_sum (\<lambda>d. Fin (f d)) distmap border =
     Fin (sum_list (map (row_sum f distmap border) [border..<ysize distmap - border]))"
  unfolding region_sum_def row_sum_def by (simp only: fp_sum_Fin)

lemma fast_path_sums:
  "fast_path N distmap border onePerPixels p =
     roots onePerPixels p (region_sum (\<lambda>d. Fin (c3 d)) distmap border)
       (region_sum (\<lambda>d. Fin (c6 d)) distmap border)
       (region_sum (\<lambda>d. Fin (c12 d)) distmap border)"
proof -
  let ?ys = "[border..<ysize distmap - border]"
  from fast_rows_acc[OF fast_acc_init, of N distmap border ?ys]
  obtain s0 s1 s2 t0 t1 t2 where st:
    "fold (fast_row N distmap border) ?ys ((Fin 0, Fin 0, Fin 0), Zero N, Zero N, Zero N)
       = ((Fin s0, Fin s1, Fin s2), map Fin t0, map Fin t1, map Fin t2)"
    "s0 + sum_list t0 = sum_list (map (row_sum c3 distmap border) ?ys)"
    "s1 + sum_list t1 = sum_list (map (row_sum c6 distmap border) ?ys)"
    "s2 + sum_list t2 = sum_list (map (row_sum c12 distmap border) ?ys)"
    unfolding fast_acc_def by auto
  show ?thesis
    unfolding fast_path_def st(1) region_sum_Fin roots_def
    by (simp add: Let_def SumOfLanes_Fin st(2-))
qed

subsection \<open>The slow path\<close>

lemma slow_fold:
  "fold (slow_step p row) xs (s0, s1, s2) =
     (fp_add s0 (fp_sum (map (\<lambda>x. fp_pow (Fin (row x)) (Fin p)) xs)),
      fp_add s1 (fp_sum (map (\<lambda>x. sq (fp_pow (Fin (row x)) (Fin p))) xs)),
      fp_add s2 (fp_sum (map (\<lambda>x. sq (sq (fp_pow (Fin (row x)) (Fin p)))) xs)))"
  by (induction xs arbitrary: s0 s1 s2) (simp_all add: Let_def sq_def fp_add_assoc)

lemma slow_rows:
  "fold (slow_row p distmap border) ys (s0, s1, s2) =
     (fp_add s0 (fp_sum (map (\<lambda>y. fp_sum (map (\<lambda>x. fp_pow (Fin (ConstRow distmap y x)) (Fin p))
                   [border..<xsize distmap - border])) ys)),
      fp_add s1 (fp_sum (map (\<lambda>y. fp_sum (map (\<lambda>x. sq (fp_pow (Fin (ConstRow distmap y x)) (Fin p)))
                   [border..<xsize distmap - border])) ys)),
      fp_add s2 (fp_sum (map (\<lambda>y. fp_sum (map (\<lambda>x. sq (sq (fp_pow (Fin (ConstRow distmap y x)) (Fin p))))
                   [border..<xsize distmap - border])) ys)))"
  by (induction ys arbitrary: s0 s1 s2) (simp_all add: slow_row_def slow_fold fp_add_assoc)

lemma upt_3: "[0..<3] = [0, 1, 2]"
  by (simp add: upt_rec)

lemma slow_path_sums:
  "slow_path distmap border onePerPixels p =
     roots onePerPixels p (region_sum (\<lambda>d. fp_pow (Fin d) (Fin p)) distmap border)
       (region_sum (\<lambda>d. sq (fp_pow (Fin d) (Fin p))) distmap border)
       (region_sum (\<lambda>d. sq (sq (fp_pow (Fin d) (Fin p)))) distmap border)"
  unfolding slow_path_def slow_rows roots_def region_sum_def
  by (simp add: Let_def upt_3)

lemma mul_reciprocal_nat:
  "fp_mul (fp_div (Fin 1) (Fin (real n))) S = fp_div S (Fin (real n))"
  by (cases S) (auto simp: signed_inf_def)

lemma roots_root_average:
  "roots (fp_div (Fin 1) (Fin (real (ysize distmap * xsize distmap)))) p S0 S1 S2 =
     root_average (xsize distmap * ysize distmap) p S0 S1 S2"
  unfolding roots_def root_average_def normalized_root_def mul_reciprocal_nat
  by (simp only: mult.commute[of "ysize distmap"])

lemma sq_Fin: "sq (Fin a) = Fin (a * a)"
  by (simp add: sq_def)


lemma ComputeDistanceP_fast:
  assumes "\<bar>p - 3\<bar> < 1 / 10 ^ 6"
  shows "ComputeDistanceP N distmap params p =
     root_average (xsize distmap * ysize distmap) p
       (region_sum (\<lambda>d. Fin (d ^ 3)) distmap (border_of distmap params))
       (region_sum (\<lambda>d. Fin (d ^ 6)) distmap (border_of distmap params))
       (region_sum (\<lambda>d. Fin (d ^ 12)) distmap (border_of distmap params))"
proof -
  have "ComputeDistanceP N distmap params p =
      fast_path N distmap (border_of distmap params)
        (fp_div (Fin 1) (Fin (real (ysize distmap * xsize distmap)))) p"
    unfolding ComputeDistanceP_def Let_def using assms by (simp only: if_True)
  then show ?thesis
    by (simp only: fast_path_sums roots_root_average c3_power c6_power c12_power)
qed

lemma ComputeDistanceP_slow:
  assumes "\<not> \<bar>p - 3\<bar> < 1 / 10 ^ 6"
  shows "ComputeDistanceP N distmap params p =
     root_average (xsize distmap * ysize distmap) p
       (region_sum (\<lambda>d. fp_pow (Fin d) (Fin p)) distmap (border_of distmap params))
       (region_sum (\<lambda>d. sq (fp_pow (Fin d) (Fin p))) distmap (border_of distmap params))
       (region_sum (\<lambda>d. sq (sq (fp_pow (Fin d) (Fin p)))) distmap (border_of distmap params))"
proof -
  have "ComputeDistanceP N distmap params p =
      slow_path distmap (border_of distmap params)
        (fp_div (Fin 1) (Fin (real (ysize distmap * xsize distmap)))) p"
    unfolding ComputeDistanceP_def Let_def using assms by (simp only: if_False)
  then show ?thesis
    by (simp only: slow_path_sums roots_root_average)
qed

lemma border_of_small:
  "xsize distmap \<le> 16 \<or> ysize distmap \<le> 16 \<Longrightarrow> border_of distmap params = 0"
  by (auto simp add: border_of_def)

lemma row_sum_const:
  assumes "\<forall>x. border \<le> x \<and> x < xsize distmap - border \<longrightarrow> ConstRow distmap y x = c"
  shows "row_sum f distmap border y = real (xsize distmap - 2 * border) * f c"
proof -
  have "map (\<lambda>x. f (ConstRow distmap y x)) [border..<xsize distmap - border]
      = map (\<lambda>x. f c) [border..<xsize distmap - border]"
    using assms by (intro map_cong) auto
  then show ?thesis
    by (simp add: row_sum_def map_replicate_const sum_list_replicate mult_2)
qed

lemma region_sum_const:
  assumes "\<forall>y x. border \<le> y \<and> y < ysize distmap - border
              \<and> border \<le> x \<and> x < xsize distmap - border \<longrightarrow> ConstRow distmap y x = c"
  shows "region_sum (\<lambda>d. Fin (f d)) distmap border =
     Fin (real ((xsize distmap - 2 * border) * (ysize distmap - 2 * border)) * f c)"
proof -
  have "map (row_sum f distmap border) [border..<ysize distmap - border]
      = map (\<lambda>y. real (xsize distmap - 2 * border) * f c) [border..<ysize distmap - border]"
    using assms by (intro map_cong refl row_sum_const) auto
  then show ?thesis
    by (simp add: region_sum_Fin map_replicate_const sum_list_replicate mult_2)
qed



lemma root_average_Fin:
  assumes "0 < xsize distmap" "0 < ysize distmap" "0 \<le> S0" "0 \<le> S1" "0 \<le> S2" "0 < p"
  shows "root_average (xsize distmap * ysize distmap) p (Fin S0) (Fin S1) (Fin S2) =
     Fin (((S0 / real (xsize distmap * ysize distmap)) powr (1 / (p * 1))
         + (S1 / real (xsize distmap * ysize distmap)) powr (1 / (p * 2))
         + (S2 / real (xsize distmap * ysize distmap)) powr (1 / (p * 4))) / 3)"
proof -
  have n: "real (xsize distmap * ysize distmap) > 0" using assms(1,2) by simp
  have r: "fp_pow (Fin (S / real (xsize distmap * ysize distmap))) (Fin (1 / k))
      = Fin ((S / real (xsize distmap * ysize distmap)) powr (1 / k))"
    if "0 \<le> S" "0 < k" for S k :: real
  proof (cases "S = 0")
    case True
    then show ?thesis using that by simp
  next
    case False
    then have "0 < S / real (xsize distmap * ysize distmap)" using that n by simp
    then show ?thesis using that by simp
  qed
  have d: "fp_div (Fin S) (Fin (real (xsize distmap * ysize distmap)))
      = Fin (S / real (xsize distmap * ysize distmap))" for S
    using assms(1,2) by simp
  have e: "fp_div (Fin 1) (Fin k) = Fin (1 / k)" if "0 < k" for k :: real
    using that by simp
  have k: "0 < p * 1" "0 < p * 2" "0 < p * 4" using assms(6) by simp_all
  show ?thesis
    unfolding root_average_def normalized_root_def d e[OF k(1)] e[OF k(2)] e[OF k(3)]
      r[OF assms(3) k(1)] r[OF assms(4) k(2)] r[OF assms(5) k(3)]
    by simp
qed

lemma root_of_power:
  fixes c :: real
  assumes "0 \<le> c" "0 < k"
  shows "(c ^ k) powr (1 / real k) = c"
proof (cases "c = 0")
  case True
  then show ?thesis using assms(2) by simp
next
  case False
  then have c: "0 < c" using assms(1) by simp
  then have "(c ^ k) powr (1 / real k) = (c powr real k) powr (1 / real k)"
    by (simp add: powr_realpow)
  also have "\<dots> = c powr (real k * (1 / real k))" by (rule powr_powr)
  also have "\<dots> = c powr 1" using assms(2) by simp
  also have "\<dots> = c" using c by simp
  finally show ?thesis .
qed

lemma const_roots:
  fixes c :: real
  assumes "0 \<le> c" "0 < n"
  shows "((n * c ^ 3 / n) powr (1 / (3 * 1)) + (n * c ^ 6 / n) powr (1 / (3 * 2))
         + (n * c ^ 12 / n) powr (1 / (3 * 4))) / 3 = c"
proof -
  have a: "(c ^ 3) powr (1 / 3) = c" using root_of_power[OF assms(1), of 3] by simp
  have b: "(c ^ 6) powr (1 / 6) = c" using root_of_power[OF assms(1), of 6] by simp
  have d: "(c ^ 12) powr (1 / 12) = c" using root_of_power[OF assms(1), of 12] by simp
  show ?thesis using assms(2) by (simp add: a b d)
qed



lemma two_powr:
  "(8::real) = 2 powr 3" "(64::real) = 2 powr 6" "(4096::real) = 2 powr 12"
  by simp_all

subsection \<open>ComputeDistance2 computes the weighted sum\<close>

lemma Set_pointwise: "Set N w = map (\<lambda>i. Fin w) [0..<N]"
  by (simp add: Set_def map_replicate_const)

lemma dist_row_vec_stop:
  "\<not> (0 < N \<and> x + N \<le> xend) \<Longrightarrow> dist_row_vec N row1 row2 weight xend x s = (x, s)"
  by (subst dist_row_vec.simps) auto

lemma dist_row_vec_step:
  assumes "0 < N" "x + N \<le> xend"
  shows "dist_row_vec N row1 row2 (Set N w) xend x (map Fin a) =
     dist_row_vec N row1 row2 (Set N w) xend (x + N)
       (map Fin (map2 (+) a
          (map (\<lambda>i. (row1 (x + i) - row2 (x + i)) * (row1 (x + i) - row2 (x + i)) * w) [0..<N])))"
  using assms
  by (subst dist_row_vec.simps)
     (simp add: Let_def Load_def Set_pointwise vsub_pointwise vmul_pointwise vadd_pointwise)

lemma dist_row_vec_sums:
  assumes "length a = N"
  shows "\<exists>x' b.
      dist_row_vec N row1 row2 (Set N w) xend x (map Fin a) = (x', map Fin b)
      \<and> length b = N \<and> x \<le> x' \<and> x' \<le> max x xend
      \<and> sum_list b = sum_list a
           + sum_list (map (\<lambda>i. (row1 i - row2 i) * (row1 i - row2 i) * w) [x..<x'])"
  using assms
proof (induction "xend - x" arbitrary: x a rule: less_induct)
  case less
  show ?case
  proof (cases "0 < N \<and> x + N \<le> xend")
    case False
    then have "dist_row_vec N row1 row2 (Set N w) xend x (map Fin a) = (x, map Fin a)"
      by (rule dist_row_vec_stop)
    with less.prems show ?thesis by auto
  next
    case True
    define n where "n = map2 (+) a
          (map (\<lambda>i. (row1 (x + i) - row2 (x + i)) * (row1 (x + i) - row2 (x + i)) * w) [0..<N])"
    have step: "dist_row_vec N row1 row2 (Set N w) xend x (map Fin a)
        = dist_row_vec N row1 row2 (Set N w) xend (x + N) (map Fin n)"
      unfolding n_def using True by (simp add: dist_row_vec_step)
    have len: "length n = N" using less.prems by (simp add: n_def)
    have s: "sum_list n = sum_list a
        + sum_list (map (\<lambda>i. (row1 i - row2 i) * (row1 i - row2 i) * w) [x..<x + N])"
      unfolding n_def using less.prems by (rule vec_step_sums)
    have dec: "xend - (x + N) < xend - x" using True by auto
    from less.hyps[OF dec len]
    obtain x' b where r:
      "dist_row_vec N row1 row2 (Set N w) xend (x + N) (map Fin n) = (x', map Fin b)"
      "length b = N" "x + N \<le> x'" "x' \<le> max (x + N) xend"
      "sum_list b = sum_list n
           + sum_list (map (\<lambda>i. (row1 i - row2 i) * (row1 i - row2 i) * w) [x + N..<x'])"
      by blast
    have split: "[x..<x'] = [x..<x + N] @ [x + N..<x']"
      using r(3) by (metis le_add1 upt_add_eq_append le_Suc_ex)
    have bound: "x \<le> x'" "x' \<le> max x xend" using r(3,4) True by auto
    show ?thesis
      apply (rule exI[of _ x'], rule exI[of _ b])
      using r(1,2,5) bound step s by (simp add: split)
  qed
qed

lemma dist_scalar_fold:
  "fold (dist_scalar_step row1 row2 c) xs (Fin r) =
     Fin (r + sum_list (map (\<lambda>i. (row1 i - row2 i) * (row1 i - row2 i) * weights ! c) xs))"
  by (induction xs arbitrary: r) (simp_all add: dist_scalar_step_def fp_sub_def add.assoc)

lemma dist_row_acc:
  assumes "dist_acc N S st"
  shows "dist_acc N (S + row_sse srgb1 srgb2 c y) (dist_row N srgb1 srgb2 c y st)"
proof -
  from assms obtain t r where st: "st = (map Fin t, Fin r)" "length t = N" "sum_list t + r = S"
    unfolding dist_acc_def by blast
  let ?row1 = "ConstPlaneRow srgb1 c y"
  let ?row2 = "ConstPlaneRow srgb2 c y"
  let ?xend = "xsize3 srgb1"
  let ?g = "\<lambda>i. (?row1 i - ?row2 i) * (?row1 i - ?row2 i) * weights ! c"
  have z: "length (replicate N (0::real)) = N" by simp
  have z0: "sum_list (replicate N (0::real)) = 0" by (induction N) simp_all
  from dist_row_vec_sums[OF z, of ?row1 ?row2 "weights ! c" ?xend 0]
  obtain x' b where r:
    "dist_row_vec N ?row1 ?row2 (Set N (weights ! c)) ?xend 0 (Zero N) = (x', map Fin b)"
    "length b = N" "x' \<le> ?xend" "sum_list b = sum_list (map ?g [0..<x'])"
    unfolding Zero_Fin z0 by auto
  have split: "[0..<?xend] = [0..<x'] @ [x'..<?xend]"
    using r(3) by (metis le0 upt_add_eq_append le_Suc_ex)
  have res: "dist_row N srgb1 srgb2 c y st =
      (map Fin (map2 (+) b t), fold (dist_scalar_step ?row1 ?row2 c) [x'..<?xend] (Fin r))"
    by (simp add: st(1) r(1) vadd_Fin)
  show ?thesis
    unfolding dist_acc_def res dist_scalar_fold row_sse_def
    apply (rule exI[of _ "map2 (+) b t"])
    apply (rule exI[of _ "r + sum_list (map ?g [x'..<?xend])"])
    using st(2,3) r(2,4) by (simp add: sum_list_map2_add split sq_diff_def[abs_def])
qed

lemma dist_plane_acc:
  "dist_acc N S st \<Longrightarrow> dist_acc N (S + plane_sse srgb1 srgb2 c) (dist_plane N srgb1 srgb2 c st)"
proof -
  have "dist_acc N S st \<Longrightarrow>
      dist_acc N (S + sum_list (map (row_sse srgb1 srgb2 c) ys))
        (fold (dist_row N srgb1 srgb2 c) ys st)" for ys
  proof (induction ys arbitrary: S st)
    case Nil
    then show ?case by simp
  next
    case (Cons y ys)
    from Cons.IH[OF dist_row_acc[OF Cons.prems, of srgb1 srgb2 c y]]
    show ?case by (simp add: add.assoc)
  qed
  then show "dist_acc N S st \<Longrightarrow>
      dist_acc N (S + plane_sse srgb1 srgb2 c) (dist_plane N srgb1 srgb2 c st)"
    unfolding plane_sse_def dist_plane_def .
qed

lemma dist_planes_acc:
  "dist_acc N S st \<Longrightarrow>
   dist_acc N (S + sum_list (map (plane_sse srgb1 srgb2) cs)) (fold (dist_plane N srgb1 srgb2) cs st)"
proof (induction cs arbitrary: S st)
  case Nil
  then show ?case by simp
next
  case (Cons c cs)
  from Cons.IH[OF dist_plane_acc[OF Cons.prems, of srgb1 srgb2 c]]
  show ?case by (simp add: add.assoc)
qed

lemma dist_acc_init: "dist_acc N 0 (Zero N, Fin 0)"
proof -
  have z0: "sum_list (replicate N (0::real)) = 0" by (induction N) simp_all
  show ?thesis
    unfolding dist_acc_def Zero_Fin
    by (rule exI[of _ "replicate N 0"], rule exI[of _ 0]) (simp add: z0)
qed

lemma ComputeDistance2_sum:
  assumes "srgb_of CopyTo ib1 = Inr srgb1" "srgb_of CopyTo ib2 = Inr srgb2" "SameSize srgb1 srgb2"
  shows "ComputeDistance2 CopyTo N ib1 ib2 = Inr (Fin (weighted_sse srgb1 srgb2))"
proof -
  from dist_planes_acc[OF dist_acc_init, of N srgb1 srgb2 "[0..<3]"]
  obtain t r where st:
    "fold (dist_plane N srgb1 srgb2) [0..<3] (Zero N, Fin 0) = (map Fin t, Fin r)"
    "sum_list t + r = weighted_sse srgb1 srgb2"
    unfolding dist_acc_def weighted_sse_def by auto
  show ?thesis
    using assms st(2) by (simp add: ComputeDistance2_def st(1) SumOfLanes_Fin del: upt_rec_numeral)
qed


lemma srgb_of_cases:
  "srgb_of CopyTo ib = Inl CheckFailed
   \<or> (IsSRGB ib \<and> srgb_of CopyTo ib = Inr (color ib))
   \<or> (\<exists>copy. CopyTo ib (SRGB (IsGray ib)) = Some copy \<and> srgb_of CopyTo ib = Inr copy)"
  by (auto simp add: srgb_of_def split: option.splits)

lemma plane_sse_const:
  assumes "\<forall>y<ysize3 a. \<forall>x<xsize3 a. sq_diff a b c y x = k"
  shows "plane_sse a b c = real (xsize3 a * ysize3 a) * k"
proof -
  have row: "row_sse a b c y = real (xsize3 a) * k" if "y < ysize3 a" for y
  proof -
    have "map (sq_diff a b c y) [0..<xsize3 a] = map (\<lambda>x. k) [0..<xsize3 a]"
      using assms that by (intro map_cong) auto
    then show ?thesis
      by (simp add: row_sse_def map_replicate_const sum_list_replicate)
  qed
  have "map (row_sse a b c) [0..<ysize3 a] = map (\<lambda>y. real (xsize3 a) * k) [0..<ysize3 a]"
    using row by (intro map_cong) auto
  then show ?thesis
    by (simp add: plane_sse_def map_replicate_const sum_list_replicate)
qed

lemma weighted_sse_nonneg: "0 \<le> weighted_sse a b"
proof -
  have w: "0 \<le> weights ! c" if "c < 3" for c
    using that by (auto simp add: weights_def nth_Cons' )
  have "0 \<le> sq_diff a b c y x" if "c < 3" for c y x
    using w[OF that] by (simp add: sq_diff_def)
  then have "0 \<le> row_sse a b c y" if "c < 3" for c y
    using that by (auto simp add: row_sse_def intro!: sum_list_nonneg)
  then have "0 \<le> plane_sse a b c" if "c < 3" for c
    using that by (auto simp add: plane_sse_def intro!: sum_list_nonneg)
  then show ?thesis
    by (auto simp add: weighted_sse_def intro!: sum_list_nonneg)
qed

section \<open>Lemmas about the number formats\<close>



lemma fits_zero [simp]: "0 \<le> max_finite f \<Longrightarrow> fits f 0"
  by (simp add: fits_def)



lemma in_fmt_nonneg:
  "0 \<le> max_finite f \<Longrightarrow> 0 \<le> r \<Longrightarrow> in_fmt f (Fin r) = Fin r \<or> in_fmt f (Fin r) = Fin 0 \<or> in_fmt f (Fin r) = PInf"
  by (auto simp add: signed_inf_def)


declare in_fmt.simps [simp del]


























section \<open>The two paths of ComputeDistanceP within the range of the formats\<close>

lemma storable_zero [simp]: "storable f 0"
  by (simp add: storable_def)








































section \<open>ComputeDistanceP on single maps, within the range of the formats\<close>






























section \<open>Claims about ComputeDistanceP\<close>




text \<open>
  C2. For every distance map, parameter setting and exponent \<open>p\<close>, the value of
  \<open>ComputeDistanceP\<close> is the average of the three roots of the power sums over the
  included region, each sum divided by the full pixel count \<open>xsize * ysize\<close> of the map
  (the first argument of \<open>root_average\<close> is the divisor), whatever border
  \<open>border_of\<close> excludes from the sums.
\<close>

theorem ComputeDistanceP_divides_by_pixel_count:
  "ComputeDistanceP N distmap params p =
     (let border = border_of distmap params; t = pixel_power p
      in root_average (xsize distmap * ysize distmap) p (region_sum t distmap border)
           (region_sum (\<lambda>d. sq (t d)) distmap border)
           (region_sum (\<lambda>d. sq (sq (t d))) distmap border))"
proof (cases "\<bar>p - 3\<bar> < 1 / 10 ^ 6")
  case True
  have t: "pixel_power p = (\<lambda>d. Fin (d ^ 3))"
    using True by (simp add: pixel_power_def fun_eq_iff)
  have p6: "\<And>d::real. d ^ 3 * d ^ 3 = d ^ 6" by (simp add: eval_nat_numeral)
  have p12: "\<And>d::real. d ^ 6 * d ^ 6 = d ^ 12" by (simp add: eval_nat_numeral)
  show ?thesis
    unfolding Let_def t sq_Fin p6 p12 using True by (rule ComputeDistanceP_fast)
next
  case False
  have t: "pixel_power p = (\<lambda>d. fp_pow (Fin d) (Fin p))"
    using False by (simp add: pixel_power_def fun_eq_iff)
  show ?thesis
    unfolding Let_def t using False by (rule ComputeDistanceP_slow)
qed

text \<open>
  C3, as the code has it. For every \<open>p\<close> with \<open>\<bar>p - 3\<bar> < 10\<^sup>-\<^sup>6\<close>,
  \<open>ComputeDistanceP\<close> takes the fast path; its value is the average of the normalised
  sums of \<open>d\<^sup>3\<close>, \<open>d\<^sup>6\<close> and \<open>d\<^sup>1\<^sup>2\<close> over the included region taken to the
  powers \<open>1/(p\<cdot>1)\<close>, \<open>1/(p\<cdot>2)\<close> and \<open>1/(p\<cdot>4)\<close> with the \<open>p\<close> passed in; at
  \<open>p = 3\<close> these are the powers \<open>1/(3\<cdot>1)\<close>, \<open>1/(3\<cdot>2)\<close>, \<open>1/(3\<cdot>4)\<close> of the
  specification.
\<close>

theorem ComputeDistanceP_fast_path:
  assumes "\<bar>p - 3\<bar> < 1 / 10 ^ 6"
  shows "ComputeDistanceP N distmap params p =
     fast_path N distmap (border_of distmap params)
       (fp_div (Fin 1) (Fin (real (ysize distmap * xsize distmap)))) p
   \<and> ComputeDistanceP N distmap params p =
     root_average (xsize distmap * ysize distmap) p
       (region_sum (\<lambda>d. Fin (d ^ 3)) distmap (border_of distmap params))
       (region_sum (\<lambda>d. Fin (d ^ 6)) distmap (border_of distmap params))
       (region_sum (\<lambda>d. Fin (d ^ 12)) distmap (border_of distmap params))
   \<and> (p = 3 \<longrightarrow> ComputeDistanceP N distmap params p
         = spec_fast_path distmap (border_of distmap params))"
proof (intro conjI impI)
  show "ComputeDistanceP N distmap params p =
     fast_path N distmap (border_of distmap params)
       (fp_div (Fin 1) (Fin (real (ysize distmap * xsize distmap)))) p"
    unfolding ComputeDistanceP_def Let_def using assms by (simp only: if_True)
  show "ComputeDistanceP N distmap params p =
     root_average (xsize distmap * ysize distmap) p
       (region_sum (\<lambda>d. Fin (d ^ 3)) distmap (border_of distmap params))
       (region_sum (\<lambda>d. Fin (d ^ 6)) distmap (border_of distmap params))
       (region_sum (\<lambda>d. Fin (d ^ 12)) distmap (border_of distmap params))"
    using assms by (rule ComputeDistanceP_fast)
  assume "p = 3"
  then show "ComputeDistanceP N distmap params p
         = spec_fast_path distmap (border_of distmap params)"
    unfolding spec_fast_path_def using ComputeDistanceP_fast[OF assms] by simp
qed

theorem ComputeDistanceP_fast_path_witness:
  "ComputeDistanceP 4 \<lparr>xsize = 1, ysize = 1, ConstRow = \<lambda>y x. 2\<rparr>
      \<lparr>approximate_border = False\<rparr> 3
     = spec_fast_path \<lparr>xsize = 1, ysize = 1, ConstRow = \<lambda>y x. 2\<rparr>
         (border_of \<lparr>xsize = 1, ysize = 1, ConstRow = \<lambda>y x. 2\<rparr> \<lparr>approximate_border = False\<rparr>)"
proof -
  have h: "\<bar>3 - 3 :: real\<bar> < 1 / 10 ^ 6" by simp
  have "(3::real) = 3 \<longrightarrow> ComputeDistanceP 4 \<lparr>xsize = 1, ysize = 1, ConstRow = \<lambda>y x. 2\<rparr>
      \<lparr>approximate_border = False\<rparr> 3
     = spec_fast_path \<lparr>xsize = 1, ysize = 1, ConstRow = \<lambda>y x. 2\<rparr>
         (border_of \<lparr>xsize = 1, ysize = 1, ConstRow = \<lambda>y x. 2\<rparr> \<lparr>approximate_border = False\<rparr>)"
    using ComputeDistanceP_fast_path[OF h, of 4 "\<lparr>xsize = 1, ysize = 1, ConstRow = \<lambda>y x. 2\<rparr>"
        "\<lparr>approximate_border = False\<rparr>"]
    by (elim conjE)
  then show ?thesis by simp
qed

text \<open>
  The claim as stated fixes the powers to \<open>1/3\<close>, \<open>1/6\<close>, \<open>1/12\<close> for every \<open>p\<close> in
  the tolerance. At \<open>p = 3 + 1/2000000\<close> on the 1 by 1 map holding 2 the code does not
  return the value 2 of that formula.
\<close>

theorem ComputeDistanceP_fast_path_roots:
  "ComputeDistanceP 4 \<lparr>xsize = 1, ysize = 1, ConstRow = \<lambda>y x. 2\<rparr>
      \<lparr>approximate_border = False\<rparr> (3 + 1 / 2000000)
     \<noteq> spec_fast_path \<lparr>xsize = 1, ysize = 1, ConstRow = \<lambda>y x. 2\<rparr> 0
   \<and> spec_fast_path \<lparr>xsize = 1, ysize = 1, ConstRow = \<lambda>y x. 2\<rparr> 0 = Fin 2"
proof
  let ?m = "\<lparr>xsize = 1, ysize = 1, ConstRow = \<lambda>y x. (2::real)\<rparr>"
  let ?p = "3 + 1 / 2000000 :: real"
  have p: "\<bar>?p - 3\<bar> < 1 / 10 ^ 6" by simp
  have b: "border_of ?m \<lparr>approximate_border = False\<rparr> = 0" by (simp add: border_of_def)
  have inside: "\<forall>y x. 0 \<le> y \<and> y < ysize ?m - 0 \<and> 0 \<le> x \<and> x < xsize ?m - 0
      \<longrightarrow> ConstRow ?m y x = 2"
    by simp
  have sums: "region_sum (\<lambda>d. Fin (d ^ 3)) ?m 0 = Fin 8"
    "region_sum (\<lambda>d. Fin (d ^ 6)) ?m 0 = Fin 64"
    "region_sum (\<lambda>d. Fin (d ^ 12)) ?m 0 = Fin 4096"
    unfolding region_sum_const[OF inside] by simp_all
  have s: "0 < xsize ?m" "0 < ysize ?m" "(0::real) \<le> 8" "(0::real) \<le> 64" "(0::real) \<le> 4096"
    by simp_all
  have spec: "spec_fast_path ?m 0 = Fin 2"
  proof -
    have r: "(8::real) powr (1 / 3) = 2" "(64::real) powr (1 / 6) = 2"
      "(4096::real) powr (1 / 12) = 2"
      unfolding two_powr powr_powr by simp_all
    have p3: "(0::real) < 3" by simp
    show ?thesis
      unfolding spec_fast_path_def sums root_average_Fin[OF s p3] by (simp add: r)
  qed
  have e: "1 / ?p < 1 / 3" "1 / (?p * 2) < 1 / 6" "1 / (?p * 4) < 1 / 12" by simp_all
  have lt: "(8::real) powr (1 / ?p) < 2" "(64::real) powr (1 / (?p * 2)) < 2"
    "(4096::real) powr (1 / (?p * 4)) < 2"
  proof -
    have "(8::real) powr (1 / ?p) < 8 powr (1 / 3)" by (rule powr_less_mono[OF e(1)]) simp
    also have "(8::real) powr (1 / 3) = 2" unfolding two_powr powr_powr by simp
    finally show "(8::real) powr (1 / ?p) < 2" .
    have "(64::real) powr (1 / (?p * 2)) < 64 powr (1 / 6)"
      by (rule powr_less_mono[OF e(2)]) simp
    also have "(64::real) powr (1 / 6) = 2" unfolding two_powr powr_powr by simp
    finally show "(64::real) powr (1 / (?p * 2)) < 2" .
    have "(4096::real) powr (1 / (?p * 4)) < 4096 powr (1 / 12)"
      by (rule powr_less_mono[OF e(3)]) simp
    also have "(4096::real) powr (1 / 12) = 2" unfolding two_powr powr_powr by simp
    finally show "(4096::real) powr (1 / (?p * 4)) < 2" .
  qed
  have pp: "0 < ?p" by simp
  have code: "ComputeDistanceP 4 ?m \<lparr>approximate_border = False\<rparr> ?p =
      Fin ((8 powr (1 / (?p * 1)) + 64 powr (1 / (?p * 2)) + 4096 powr (1 / (?p * 4))) / 3)"
    unfolding ComputeDistanceP_fast[OF p] b sums root_average_Fin[OF s pp] by simp
  show "ComputeDistanceP 4 ?m \<lparr>approximate_border = False\<rparr> ?p \<noteq> spec_fast_path ?m 0"
    unfolding code spec using lt by simp
  show "spec_fast_path ?m 0 = Fin 2" by (rule spec)
qed




text \<open>
  C5. For every distance map with \<open>xsize \<le> 16\<close> or \<open>ysize \<le> 16\<close> the border is
  forced to 0, and \<open>ComputeDistanceP\<close> with \<open>approximate_border = True\<close> returns the
  value it returns with \<open>approximate_border = False\<close>, for every \<open>p\<close>.
\<close>

theorem ComputeDistanceP_small_image:
  assumes "xsize distmap \<le> 16 \<or> ysize distmap \<le> 16"
  shows "border_of distmap \<lparr>approximate_border = True\<rparr> = 0 \<and>
         ComputeDistanceP N distmap \<lparr>approximate_border = True\<rparr> p =
         ComputeDistanceP N distmap \<lparr>approximate_border = False\<rparr> p"
  unfolding ComputeDistanceP_def border_of_small[OF assms] by simp

theorem ComputeDistanceP_small_image_witness:
  "(xsize \<lparr>xsize = 16, ysize = 20, ConstRow = \<lambda>y x. real (x + y)\<rparr> \<le> 16
      \<or> ysize \<lparr>xsize = 16, ysize = 20, ConstRow = \<lambda>y x. real (x + y)\<rparr> \<le> 16)
   \<and> ComputeDistanceP 4 \<lparr>xsize = 16, ysize = 20, ConstRow = \<lambda>y x. real (x + y)\<rparr>
         \<lparr>approximate_border = True\<rparr> 3 =
       ComputeDistanceP 4 \<lparr>xsize = 16, ysize = 20, ConstRow = \<lambda>y x. real (x + y)\<rparr>
         \<lparr>approximate_border = False\<rparr> 3"
  using ComputeDistanceP_small_image
    [of "\<lparr>xsize = 16, ysize = 20, ConstRow = \<lambda>y x. real (x + y)\<rparr>" 4 3]
  by simp




section \<open>Claims about ComputeDistance2\<close>

text \<open>
  C7. When the widths or the heights of the two images differ, \<open>ComputeDistance2\<close> ends
  in the fatal check and returns no value. The conversion to sRGB is outside this file;
  it is taken to keep the size of the image it converts.
\<close>

theorem ComputeDistance2_size_mismatch:
  assumes "\<forall>ib enc copy. CopyTo ib enc = Some copy \<longrightarrow> SameSize copy (color ib)"
    "xsize3 (color ib1) \<noteq> xsize3 (color ib2) \<or> ysize3 (color ib1) \<noteq> ysize3 (color ib2)"
  shows "ComputeDistance2 CopyTo N ib1 ib2 = Inl CheckFailed"
proof -
  have size: "SameSize s (color ib)" if "srgb_of CopyTo ib = Inr s" for ib s
    using that assms(1) srgb_of_cases[of CopyTo ib] by (auto simp add: SameSize_def)
  show ?thesis
  proof (cases "srgb_of CopyTo ib1")
    case (Inl e)
    then show ?thesis by (cases e) (simp add: ComputeDistance2_def)
  next
    case s1: (Inr srgb1)
    show ?thesis
    proof (cases "srgb_of CopyTo ib2")
      case (Inl e)
      then show ?thesis using s1 by (cases e) (simp add: ComputeDistance2_def)
    next
      case s2: (Inr srgb2)
      have "\<not> SameSize srgb1 srgb2"
        using size[OF s1] size[OF s2] assms(2) by (auto simp add: SameSize_def)
      then show ?thesis using s1 s2 by (simp add: ComputeDistance2_def)
    qed
  qed
qed

theorem ComputeDistance2_size_mismatch_witness:
  "ComputeDistance2 (\<lambda>ib enc. Some (color ib)) 4
     \<lparr>color = \<lparr>xsize3 = 4, ysize3 = 4, ConstPlaneRow = \<lambda>c y x. 0\<rparr>, IsSRGB = True, IsGray = False\<rparr>
     \<lparr>color = \<lparr>xsize3 = 5, ysize3 = 5, ConstPlaneRow = \<lambda>c y x. 0\<rparr>, IsSRGB = True, IsGray = False\<rparr>
   = Inl CheckFailed"
  using ComputeDistance2_size_mismatch[of "\<lambda>ib enc. Some (color ib)"
     "\<lparr>color = \<lparr>xsize3 = 4, ysize3 = 4, ConstPlaneRow = \<lambda>c y x. 0\<rparr>, IsSRGB = True, IsGray = False\<rparr>"
     "\<lparr>color = \<lparr>xsize3 = 5, ysize3 = 5, ConstPlaneRow = \<lambda>c y x. 0\<rparr>, IsSRGB = True, IsGray = False\<rparr>"
     4]
  by (simp add: SameSize_def)



text \<open>
  C9. \<open>ComputeDistance2\<close> of an image with itself is 0, for every image that is sRGB or
  that the conversion accepts.
\<close>

theorem ComputeDistance2_identity:
  assumes "IsSRGB ib \<or> CopyTo ib (SRGB (IsGray ib)) \<noteq> None"
  shows "ComputeDistance2 CopyTo N ib ib = Inr (Fin 0)"
proof -
  have "\<exists>s. srgb_of CopyTo ib = Inr s"
  proof (cases "IsSRGB ib")
    case True
    then show ?thesis by (simp add: srgb_of_def)
  next
    case False
    with assms obtain copy where "CopyTo ib (SRGB (IsGray ib)) = Some copy" by auto
    with False show ?thesis by (simp add: srgb_of_def)
  qed
  then obtain s where s: "srgb_of CopyTo ib = Inr s" ..
  have "\<forall>y<ysize3 s. \<forall>x<xsize3 s. sq_diff s s c y x = 0" for c
    by (simp add: sq_diff_def)
  then have "plane_sse s s c = 0" for c
    using plane_sse_const[of s s c 0] by simp
  then have z: "weighted_sse s s = 0"
    by (simp add: weighted_sse_def upt_3 del: upt_rec_numeral)
  have "SameSize s s" by (simp add: SameSize_def)
  from ComputeDistance2_sum[OF s s this, of N] show ?thesis by (simp add: z)
qed

theorem ComputeDistance2_identity_witness:
  "ComputeDistance2 (\<lambda>ib enc. None) 4
     \<lparr>color = \<lparr>xsize3 = 4, ysize3 = 4,
        ConstPlaneRow = \<lambda>c y x. if c = 1 then real (y + x) + 2 else real (y + x)\<rparr>,
      IsSRGB = True, IsGray = False\<rparr>
     \<lparr>color = \<lparr>xsize3 = 4, ysize3 = 4,
        ConstPlaneRow = \<lambda>c y x. if c = 1 then real (y + x) + 2 else real (y + x)\<rparr>,
      IsSRGB = True, IsGray = False\<rparr>
   = Inr (Fin 0)"
  using ComputeDistance2_identity[of
     "\<lparr>color = \<lparr>xsize3 = 4, ysize3 = 4,
        ConstPlaneRow = \<lambda>c y x. if c = 1 then real (y + x) + 2 else real (y + x)\<rparr>,
      IsSRGB = True, IsGray = False\<rparr>"
     "\<lambda>ib enc. None" 4]
  by simp

text \<open>
  C10. For two images of the same size (after the conversion to sRGB, where one is
  needed) \<open>ComputeDistance2\<close> returns a finite number that is not negative.
\<close>

theorem ComputeDistance2_nonnegative:
  assumes "srgb_of CopyTo ib1 = Inr srgb1" "srgb_of CopyTo ib2 = Inr srgb2"
    "SameSize srgb1 srgb2"
  shows "\<exists>r. ComputeDistance2 CopyTo N ib1 ib2 = Inr (Fin r) \<and> 0 \<le> r"
  using ComputeDistance2_sum[OF assms] weighted_sse_nonneg by blast

theorem ComputeDistance2_nonnegative_witness:
  "\<exists>r. ComputeDistance2 (\<lambda>ib enc. None) 4
     \<lparr>color = \<lparr>xsize3 = 4, ysize3 = 4,
        ConstPlaneRow = \<lambda>c y x. if c = 1 then real (y + x) + 2 else real (y + x)\<rparr>,
      IsSRGB = True, IsGray = False\<rparr>
     \<lparr>color = \<lparr>xsize3 = 4, ysize3 = 4, ConstPlaneRow = \<lambda>c y x. real (y + x)\<rparr>,
      IsSRGB = True, IsGray = False\<rparr>
   = Inr (Fin r) \<and> 0 \<le> r"
  using ComputeDistance2_nonnegative[of "\<lambda>ib enc. None"
     "\<lparr>color = \<lparr>xsize3 = 4, ysize3 = 4,
        ConstPlaneRow = \<lambda>c y x. if c = 1 then real (y + x) + 2 else real (y + x)\<rparr>,
      IsSRGB = True, IsGray = False\<rparr>"
     "color \<lparr>color = \<lparr>xsize3 = 4, ysize3 = 4,
        ConstPlaneRow = \<lambda>c y x. if c = 1 then real (y + x) + 2 else real (y + x)\<rparr>,
      IsSRGB = True, IsGray = False\<rparr>"
     "\<lparr>color = \<lparr>xsize3 = 4, ysize3 = 4, ConstPlaneRow = \<lambda>c y x. real (y + x)\<rparr>,
      IsSRGB = True, IsGray = False\<rparr>"
     "color \<lparr>color = \<lparr>xsize3 = 4, ysize3 = 4, ConstPlaneRow = \<lambda>c y x. real (y + x)\<rparr>,
      IsSRGB = True, IsGray = False\<rparr>"
     4]
  by (simp add: srgb_of_def SameSize_def)

end
